theory Spec2Isabelle
  imports Main "HOL-Library.Word"
begin

section \<open>Common Python notions\<close>

text \<open>
  Exceptions of the scripts are values. Only the classes that the scripts raise or that
  the modelled library calls raise are listed.
\<close>

datatype py_error =
    ZeroDivisionError
  | ValueError
  | FileNotFoundError
  | RuntimeError
  | OracleError
  | NetworkError

section \<open>inpaint\_video.py\<close>

subsection \<open>Encoder probe\<close>

text \<open>
  \<^verbatim>\<open>subprocess.run(..., timeout=10)\<close> either returns a completed process with a return
  code, or raises (the binary is missing, the timeout expires). The outcome of a probe
  is an input of the model.
\<close>

datatype run_outcome = Exited int | Raised

definition encoders :: "string list" where
  "encoders = [''h264_videotoolbox'', ''h264_nvenc'', ''h264_amf'', ''h264_qsv'']"

text \<open>
  The \<^verbatim>\<open>for name, cmd in encoders\<close> loop of \<^verbatim>\<open>detect_hw_encoder\<close>: return the name on
  return code 0, go on to the next encoder on any other return code and on an
  exception (\<^verbatim>\<open>except Exception: continue\<close>), and return \<^verbatim>\<open>"libx264"\<close> after the loop.
\<close>

fun probe_loop :: "(string \<Rightarrow> run_outcome) \<Rightarrow> string list \<Rightarrow> string" where
  "probe_loop run [] = ''libx264''"
| "probe_loop run (name # rest) =
     (case run name of
        Exited rc \<Rightarrow> (if rc = 0 then name else probe_loop run rest)
      | Raised \<Rightarrow> probe_loop run rest)"

definition detect_hw_encoder :: "(string \<Rightarrow> run_outcome) \<Rightarrow> string" where
  "detect_hw_encoder run = probe_loop run encoders"

section \<open>Encoder probe: properties\<close>

lemma probe_loop_fallback:
  "(\<And>n. n \<in> set names \<Longrightarrow> run n \<noteq> Exited 0) \<Longrightarrow> probe_loop run names = ''libx264''"
  by (induction names) (auto split: run_outcome.splits)

lemma probe_loop_first:
  assumes "i < length names" "run (names ! i) = Exited 0"
    and "\<And>j. j < i \<Longrightarrow> run (names ! j) \<noteq> Exited 0"
  shows "probe_loop run names = names ! i"
  using assms
proof (induction names arbitrary: i)
  case Nil
  then show ?case by simp
next
  case (Cons n ns)
  show ?case
  proof (cases i)
    case 0
    with Cons.prems show ?thesis by simp
  next
    case (Suc k)
    have head: "run n \<noteq> Exited 0"
      using Cons.prems(3) [of 0] Suc by simp
    have tail: "probe_loop run ns = ns ! k"
    proof (rule Cons.IH)
      show "k < length ns" using Cons.prems(1) Suc by simp
      show "run (ns ! k) = Exited 0" using Cons.prems(2) Suc by simp
      show "\<And>j. j < k \<Longrightarrow> run (ns ! j) \<noteq> Exited 0"
        using Cons.prems(3) Suc by (metis Suc_less_eq nth_Cons_Suc)
    qed
    from head tail Suc show ?thesis
      by (auto split: run_outcome.splits)
  qed
qed

text \<open>
  Claim C4. Whatever the probes do (exit with any code, raise, time out), the probe step
  returns a name without raising: the first encoder of the priority list whose
  smoke-encode exits with code 0, and \<^verbatim>\<open>libx264\<close> when no probe exits with code 0.
\<close>

theorem detect_hw_encoder_selects:
  "(\<exists>i < length encoders.
       run (encoders ! i) = Exited 0
     \<and> (\<forall>j < i. run (encoders ! j) \<noteq> Exited 0)
     \<and> detect_hw_encoder run = encoders ! i)
   \<or> ((\<forall>n \<in> set encoders. run n \<noteq> Exited 0) \<and> detect_hw_encoder run = ''libx264'')"
proof (cases "\<exists>i < length encoders. run (encoders ! i) = Exited 0")
  case True
  define i where "i = (LEAST i. i < length encoders \<and> run (encoders ! i) = Exited 0)"
  from True have hit: "i < length encoders \<and> run (encoders ! i) = Exited 0"
    unfolding i_def by (rule LeastI_ex)
  have first: "\<forall>j < i. run (encoders ! j) \<noteq> Exited 0"
  proof (intro allI impI notI)
    fix j assume "j < i" "run (encoders ! j) = Exited 0"
    then have "j < length encoders \<and> run (encoders ! j) = Exited 0"
      using hit by simp
    then have "i \<le> j" unfolding i_def by (rule Least_le)
    with \<open>j < i\<close> show False by simp
  qed
  have "detect_hw_encoder run = encoders ! i"
    unfolding detect_hw_encoder_def
    using hit first by (intro probe_loop_first) auto
  with hit first show ?thesis by blast
next
  case False
  then have none: "\<forall>n \<in> set encoders. run n \<noteq> Exited 0"
    by (auto simp: in_set_conv_nth)
  then have "detect_hw_encoder run = ''libx264''"
    unfolding detect_hw_encoder_def by (intro probe_loop_fallback) auto
  with none show ?thesis by blast
qed

theorem detect_hw_encoder_selects_witness:
  "detect_hw_encoder (\<lambda>n. if n = ''h264_nvenc'' then Exited 0 else Raised) = ''h264_nvenc''
   \<and> detect_hw_encoder (\<lambda>n. Exited 1) = ''libx264''"
proof -
  let ?r = "\<lambda>n. if n = ''h264_nvenc'' then Exited 0 else Raised"
  have a: "detect_hw_encoder ?r = ''h264_nvenc''"
    using detect_hw_encoder_selects [of ?r]
    by (simp add: detect_hw_encoder_def encoders_def)
  have b: "detect_hw_encoder (\<lambda>n. Exited 1) = ''libx264''"
    using detect_hw_encoder_selects [of "\<lambda>n. Exited 1"]
    by (simp add: detect_hw_encoder_def encoders_def)
  from a b show ?thesis by simp
qed

end
